theory Spec2Isabelle
  imports Main "HOL-Library.List_Lexorder" "HOL-Library.Multiset"
begin

section \<open>Python values\<close>

text \<open>
  A Python \<open>str\<close> is a sequence of Unicode code points, and \<open>len\<close> counts code points.
  A string is therefore modelled as the list of its code points. ASCII literals of the
  sources are written with \<open>of_ascii\<close>; the Chinese literals are spelled out by code point.
\<close>

type_synonym pystr = "nat list"

definition of_ascii :: "string \<Rightarrow> pystr" where
  "of_ascii s = map of_char s"

text \<open>The exceptions the modelled functions can raise.\<close>

datatype error = KeyError | ValueError | IndexError

subsection \<open>Character classes\<close>

text \<open>
  \<open>str.strip()\<close> and the regular expression class \<open>\s\<close> (on \<open>str\<close> patterns) both test
  CPython's \<open>Py_UNICODE_ISSPACE\<close>: the 29 code points below (Unicode 14, CPython 3.11;
  the set has been stable since Unicode 6.3).
\<close>

definition isspace :: "nat \<Rightarrow> bool" where
  "isspace c \<longleftrightarrow>
     (9 \<le> c \<and> c \<le> 13) \<or> (28 \<le> c \<and> c \<le> 32) \<or> c = 133 \<or> c = 160 \<or> c = 5760 \<or>
     (8192 \<le> c \<and> c \<le> 8202) \<or> c = 8232 \<or> c = 8233 \<or> c = 8239 \<or> c = 8287 \<or> c = 12288"

text \<open>
  \<open>\d\<close> on a \<open>str\<close> pattern matches the code points of category Nd. In Unicode 14 they form
  66 blocks of ten consecutive code points; \<open>decimal_blocks\<close> lists the first code point
  of every block (the mathematical digits U+1D7CE..U+1D7FF are five blocks).
\<close>

definition decimal_blocks :: "nat list" where
  "decimal_blocks =
     [48, 1632, 1776, 1984, 2406, 2534, 2662, 2790, 2918, 3046, 3174, 3302, 3430, 3558,
      3664, 3792, 3872, 4160, 4240, 6112, 6160, 6470, 6608, 6784, 6800, 6992, 7088, 7232,
      7248, 42528, 43216, 43264, 43472, 43504, 43600, 44016, 65296, 66720, 68912, 69734,
      69872, 69942, 70096, 70384, 70736, 70864, 71248, 71360, 71472, 71904, 72016, 72784,
      73040, 73120, 92768, 92864, 93008, 120782, 120792, 120802, 120812, 120822, 123200,
      123632, 125264, 130032]"

definition isdecimal :: "nat \<Rightarrow> bool" where
  "isdecimal c = list_ex (\<lambda>b. b \<le> c \<and> c < b + 10) decimal_blocks"

subsection \<open>String methods\<close>

definition strip_with :: "(nat \<Rightarrow> bool) \<Rightarrow> pystr \<Rightarrow> pystr" where
  "strip_with P s = rev (dropWhile P (rev (dropWhile P s)))"

definition strip :: "pystr \<Rightarrow> pystr" where
  \<comment> \<open>\<open>s.strip()\<close>\<close>
  "strip s = strip_with isspace s"

definition strip_chars :: "pystr \<Rightarrow> pystr \<Rightarrow> pystr" where
  \<comment> \<open>\<open>s.strip(chars)\<close>\<close>
  "strip_chars chars s = strip_with (\<lambda>c. c \<in> set chars) s"

definition startswith :: "pystr \<Rightarrow> pystr \<Rightarrow> bool" where
  \<comment> \<open>\<open>s.startswith(p)\<close>\<close>
  "startswith p s = (take (length p) s = p)"

definition endswith :: "pystr \<Rightarrow> pystr \<Rightarrow> bool" where
  \<comment> \<open>\<open>s.endswith(p)\<close>\<close>
  "endswith p s = (length p \<le> length s \<and> drop (length s - length p) s = p)"

fun contains :: "pystr \<Rightarrow> pystr \<Rightarrow> bool" where
  \<comment> \<open>\<open>needle in hay\<close> for strings: \<open>needle\<close> occurs in \<open>hay\<close> as a substring\<close>
  "contains [] needle = (needle = [])"
| "contains (h # hay) needle = (startswith needle (h # hay) \<or> contains hay needle)"

subsection \<open>The three regular expressions\<close>

text \<open>
  \<open>re.match(r'^[#]?\d+\.?\s', text)\<close>: an optional \<open>#\<close>, one or more decimal digits, an
  optional full stop, one white-space character. The three classes are pairwise disjoint,
  so the greedy match never backtracks into a different split. The result is the text after
  the match, which is also what \<open>re.sub(r'^[#]?\d+\.?\s', '', text)\<close> returns when the match
  succeeds (the anchor lets the pattern match at position 0 only).
\<close>

definition match_question_start :: "pystr \<Rightarrow> pystr option" where
  "match_question_start text =
     (let s0 = (case text of c # cs \<Rightarrow> if c = 35 then cs else text | [] \<Rightarrow> text);
          digits = takeWhile isdecimal s0;
          s1 = dropWhile isdecimal s0;
          s2 = (case s1 of c # cs \<Rightarrow> if c = 46 then cs else s1 | [] \<Rightarrow> s1)
      in if digits = [] then None
         else (case s2 of c # cs \<Rightarrow> if isspace c then Some cs else None | [] \<Rightarrow> None))"

text \<open>
  \<open>re.match(r'^[A-D]\.?\s', text)\<close>: one letter of A to D, an optional full stop, one
  white-space character; again the result is the text after the match.
\<close>

definition match_option :: "pystr \<Rightarrow> pystr option" where
  "match_option text =
     (case text of
        [] \<Rightarrow> None
      | c # s0 \<Rightarrow>
          if 65 \<le> c \<and> c \<le> 68 then
            (let s1 = (case s0 of d # ds \<Rightarrow> if d = 46 then ds else s0 | [] \<Rightarrow> s0)
             in case s1 of d # ds \<Rightarrow> if isspace d then Some ds else None | [] \<Rightarrow> None)
          else None)"

text \<open>
  The answer pattern \<open>\{(.+?)\}\<close>: an opening brace, one or more characters other than a
  line feed (\<open>.\<close> without \<open>DOTALL\<close>), as few as possible, and a closing brace. The first
  character after the opening brace is taken whatever it is (a closing brace included);
  from there \<open>scan_close\<close> looks for the first closing brace and fails at a line feed.
  \<open>match_answer\<close> is the match at the start of its argument: the group and the text after
  the match.
\<close>

fun scan_close :: "pystr \<Rightarrow> (pystr \<times> pystr) option" where
  "scan_close [] = None"
| "scan_close (c # cs) =
     (if c = 125 then Some ([], cs)
      else if c = 10 then None
      else (case scan_close cs of None \<Rightarrow> None | Some (g, r) \<Rightarrow> Some (c # g, r)))"

definition match_answer :: "pystr \<Rightarrow> (pystr \<times> pystr) option" where
  "match_answer s =
     (case s of
        c0 # c1 # cs \<Rightarrow>
          if c0 = 123 \<and> c1 \<noteq> 10 then
            (case scan_close cs of None \<Rightarrow> None | Some (g, r) \<Rightarrow> Some (c1 # g, r))
          else None
      | _ \<Rightarrow> None)"

fun re_search_answer :: "pystr \<Rightarrow> pystr option" where
  \<comment> \<open>\<open>re.search(r'\{(.+?)\}', s)\<close>, as \<open>group(1)\<close> of the leftmost match\<close>
  "re_search_answer [] = None"
| "re_search_answer (c # cs) =
     (case match_answer (c # cs) of
        Some (g, r) \<Rightarrow> Some g
      | None \<Rightarrow> re_search_answer cs)"

lemma scan_close_length: "scan_close s = Some (g, r) \<Longrightarrow> length r < length s"
proof (induction s arbitrary: g)
  case Nil
  then show ?case by simp
next
  case (Cons c cs)
  then show ?case
    by (fastforce split: if_splits option.splits)
qed

lemma match_answer_length: "match_answer s = Some (g, r) \<Longrightarrow> length r < length s"
  by (auto simp: match_answer_def split: list.splits if_splits option.splits
      dest: scan_close_length)

function re_sub_answer :: "pystr \<Rightarrow> pystr" where
  \<comment> \<open>\<open>re.sub(r'\{.+?\}', '', s)\<close>: every match, left to right, is deleted\<close>
  "re_sub_answer [] = []"
| "re_sub_answer (c # cs) =
     (case match_answer (c # cs) of
        Some (g, r) \<Rightarrow> re_sub_answer r
      | None \<Rightarrow> c # re_sub_answer cs)"
  by pat_completeness auto
termination
  by (relation "measure length") (auto dest: match_answer_length)

section \<open>Question records\<close>

text \<open>
  The dictionaries built by the segmenter always carry the four keys \<open>type\<close>,
  \<open>question\<close>, \<open>options\<close> and \<open>answer\<close>.
\<close>

record question_record =
  type :: pystr
  question :: pystr
  options :: "pystr list"
  answer :: pystr

section \<open>The segmenter: \<open>extract_questions_from_docx\<close> of \<open>bot_st1.0.2.py\<close>\<close>

text \<open>
  The state of the loop over \<open>doc.paragraphs\<close>: the list \<open>questions\<close>, the dictionary
  \<open>current_question\<close> (\<open>None\<close> stands for the empty dictionary \<open>{}\<close> it starts as, which is
  the only value that tests false), and the ambient \<open>question_type\<close>.
\<close>

record seg_state =
  questions :: "question_record list"
  current_question :: "question_record option"
  question_type :: pystr

definition init_state :: seg_state where
  "init_state = \<lparr>questions = [], current_question = None, question_type = []\<rparr>"

definition flush :: "seg_state \<Rightarrow> question_record list" where
  \<comment> \<open>\<open>if current_question: questions.append(current_question)\<close>\<close>
  "flush st =
     (case current_question st of
        None \<Rightarrow> questions st
      | Some q \<Rightarrow> questions st @ [q])"

definition open_question :: "pystr \<Rightarrow> pystr \<Rightarrow> question_record" where
  \<comment> \<open>lines 46 to 60: the record opened by a question line; \<open>rest\<close> is the text after the
      number prefix\<close>
  "open_question qtype rest =
     (let question_text = strip rest in
      case re_search_answer question_text of
        Some g \<Rightarrow>
          \<lparr>type = qtype, question = strip (re_sub_answer question_text), options = [],
           answer = g\<rparr>
      | None \<Rightarrow>
          \<lparr>type = qtype, question = strip question_text, options = [], answer = []\<rparr>)"

definition step :: "seg_state \<Rightarrow> pystr \<Rightarrow> error + seg_state" where
  \<comment> \<open>one iteration of the loop, lines 32 to 65; \<open>para\<close> is \<open>para.text\<close>\<close>
  "step st para =
     (let text = strip para in
      if text = [] then Inr st
      else if startswith [35, 35] text \<and> endswith [35, 35] text then
        Inr (st\<lparr>question_type := strip (strip_chars [35] text)\<rparr>)
      else
        (case match_question_start text of
           Some rest \<Rightarrow>
             Inr (st\<lparr>questions := flush st,
                     current_question := Some (open_question (question_type st) rest)\<rparr>)
         | None \<Rightarrow>
             (case match_option text of
                Some rest \<Rightarrow>
                  (case current_question st of
                     None \<Rightarrow> Inl KeyError
                   | Some q \<Rightarrow>
                       Inr (st\<lparr>current_question :=
                                 Some (q\<lparr>options := options q @ [strip rest]\<rparr>)\<rparr>))
              | None \<Rightarrow> Inr st)))"

fun run :: "seg_state \<Rightarrow> pystr list \<Rightarrow> error + seg_state" where
  "run st [] = Inr st"
| "run st (para # paras) =
     (case step st para of
        Inl e \<Rightarrow> Inl e
      | Inr st' \<Rightarrow> run st' paras)"

definition extract_questions_from_docx :: "pystr list \<Rightarrow> error + question_record list" where
  "extract_questions_from_docx paragraphs =
     (case run init_state paragraphs of
        Inl e \<Rightarrow> Inl e
      | Inr st \<Rightarrow> Inr (flush st))"

section \<open>The segmenter of \<open>bot_st1.0.1.py\<close>\<close>

text \<open>
  Lines 30 to 64 of \<open>bot_st1.0.1.py\<close>, translated on their own, branch by branch, on the
  same state.
\<close>

definition step_101 :: "seg_state \<Rightarrow> pystr \<Rightarrow> error + seg_state" where
  "step_101 st para =
     (let text = strip para in
      if text = [] then Inr st
      else if startswith [35, 35] text \<and> endswith [35, 35] text then
        Inr (st\<lparr>question_type := strip (strip_chars [35] text)\<rparr>)
      else if match_question_start text \<noteq> None then
        (let questions' =
               (if current_question st \<noteq> None
                then questions st @ [the (current_question st)] else questions st);
             new = \<lparr>type = question_type st, question = [], options = [], answer = []\<rparr>;
             question_text = strip (the (match_question_start text));
             answer_match = re_search_answer question_text;
             new' = (if answer_match \<noteq> None then new\<lparr>answer := the answer_match\<rparr> else new);
             question_text' =
               (if answer_match \<noteq> None then re_sub_answer question_text else question_text)
         in Inr (st\<lparr>questions := questions',
                    current_question := Some (new'\<lparr>question := strip question_text'\<rparr>)\<rparr>))
      else if match_option text \<noteq> None then
        (let option_text = strip (the (match_option text)) in
         case current_question st of
           None \<Rightarrow> Inl KeyError
         | Some q \<Rightarrow>
             Inr (st\<lparr>current_question := Some (q\<lparr>options := options q @ [option_text]\<rparr>)\<rparr>))
      else Inr st)"

fun run_101 :: "seg_state \<Rightarrow> pystr list \<Rightarrow> error + seg_state" where
  "run_101 st [] = Inr st"
| "run_101 st (para # paras) =
     (case step_101 st para of
        Inl e \<Rightarrow> Inl e
      | Inr st' \<Rightarrow> run_101 st' paras)"

definition extract_questions_from_docx_101 :: "pystr list \<Rightarrow> error + question_record list" where
  "extract_questions_from_docx_101 paragraphs =
     (case run_101 init_state paragraphs of
        Inl e \<Rightarrow> Inl e
      | Inr st \<Rightarrow>
          Inr (if current_question st \<noteq> None
               then questions st @ [the (current_question st)] else questions st))"

section \<open>The type inferencer: \<open>determine_question_type\<close>\<close>

text \<open>The string literals of \<open>bot_st1.0.2.py\<close>, by code point.\<close>

definition single_choice :: pystr where
  \<comment> \<open>U+5355 U+9009 U+9898, the label of single-choice questions\<close>
  "single_choice = [21333, 36873, 39064]"

definition multi_choice :: pystr where
  \<comment> \<open>U+591A U+9009 U+9898, the label of multi-choice questions\<close>
  "multi_choice = [22810, 36873, 39064]"

definition true_false :: pystr where
  \<comment> \<open>U+5224 U+65AD U+9898, the label of true-false questions\<close>
  "true_false = [21028, 26029, 39064]"

definition word_correct :: pystr where
  \<comment> \<open>U+6B63 U+786E, "correct"\<close>
  "word_correct = [27491, 30830]"

definition word_wrong :: pystr where
  \<comment> \<open>U+9519 U+8BEF, "wrong"\<close>
  "word_wrong = [38169, 35823]"

definition boolean_tokens :: "pystr list" where
  \<comment> \<open>the list of line 79: "correct", "wrong", their one-character forms U+5BF9 and U+9519,
      \<open>T\<close> and \<open>F\<close>\<close>
  "boolean_tokens = [word_correct, word_wrong, [23545], [38169], [84], [70]]"

definition option_alphabet :: pystr where
  \<comment> \<open>\<open>'ABCDEFGHIJK'\<close>\<close>
  "option_alphabet = [65, 66, 67, 68, 69, 70, 71, 72, 73, 74, 75]"

definition header_type :: pystr where
  \<comment> \<open>U+9898 U+578B, the header of the type column\<close>
  "header_type = [39064, 22411]"

definition header_question :: pystr where
  \<comment> \<open>U+9898 U+76EE, the header of the stem column\<close>
  "header_question = [39064, 30446]"

definition header_answer :: pystr where
  \<comment> \<open>U+7B54 U+6848, the header of the answer column\<close>
  "header_answer = [31572, 26696]"

text \<open>
  \<open>str.upper()\<close> maps every code point by the full upper-case mapping of the interpreter's
  Unicode database, which can give several code points for one. On ASCII the mapping is
  fixed; beyond ASCII it depends on the Unicode version and is the parameter \<open>uc\<close> of the
  model. \<open>uncased\<close> is the mapping of the code points that have no upper-case form, such as
  all CJK ideographs: it is what the examples below run with, whose strings are made of
  ASCII characters and ideographs only.
\<close>

definition upper_char :: "(nat \<Rightarrow> pystr) \<Rightarrow> nat \<Rightarrow> pystr" where
  "upper_char uc c =
     (if c < 128 then (if 97 \<le> c \<and> c \<le> 122 then [c - 32] else [c]) else uc c)"

definition upper :: "(nat \<Rightarrow> pystr) \<Rightarrow> pystr \<Rightarrow> pystr" where
  "upper uc s = concat (map (upper_char uc) s)"

definition uncased :: "nat \<Rightarrow> pystr" where
  "uncased c = [c]"

definition determine_question_type :: "(nat \<Rightarrow> pystr) \<Rightarrow> question_record \<Rightarrow> pystr" where
  "determine_question_type uc q =
     (let answer' = upper uc (strip (answer q)) in
      if answer' \<in> set boolean_tokens then true_false
      else if length answer' > 1 \<and> list_all (\<lambda>c. contains option_alphabet [c]) answer'
        then multi_choice
      else if length answer' = 1 \<and> contains option_alphabet answer' then single_choice
      else single_choice)"

section \<open>The layout builder: \<open>write_to_excel\<close>\<close>

text \<open>
  \<open>chr(n)\<close> is the one-character string of code point \<open>n\<close>, and raises \<open>ValueError\<close> outside
  \<open>range(0x110000)\<close>.
\<close>

definition chr :: "nat \<Rightarrow> error + pystr" where
  "chr n = (if n < 1114112 then Inr [n] else Inl ValueError)"

text \<open>
  \<open>get_option_letters\<close>, lines 105 to 110: the inner loop over \<open>enumerate(q['options'])\<close>,
  the outer loop over the questions, and \<open>sorted(list(letters))\<close>. Python compares strings
  lexicographically by code point, which is the order of lists of naturals.
\<close>

fun add_letters :: "nat \<Rightarrow> pystr list \<Rightarrow> pystr set \<Rightarrow> error + pystr set" where
  "add_letters i [] letters = Inr letters"
| "add_letters i (opt # opts) letters =
     (case chr (65 + i) of
        Inl e \<Rightarrow> Inl e
      | Inr l \<Rightarrow> add_letters (Suc i) opts (insert l letters))"

fun collect_letters :: "question_record list \<Rightarrow> pystr set \<Rightarrow> error + pystr set" where
  "collect_letters [] letters = Inr letters"
| "collect_letters (q # qs) letters =
     (case add_letters 0 (options q) letters of
        Inl e \<Rightarrow> Inl e
      | Inr letters' \<Rightarrow> collect_letters qs letters')"

definition get_option_letters :: "question_record list \<Rightarrow> error + pystr list" where
  "get_option_letters qs =
     (case collect_letters qs {} of
        Inl e \<Rightarrow> Inl e
      | Inr letters \<Rightarrow> Inr (sorted_list_of_set letters))"

definition get_headers :: "pystr \<Rightarrow> pystr list \<Rightarrow> pystr list" where
  \<comment> \<open>lines 113 to 120\<close>
  "get_headers qtype option_letters =
     (if qtype \<in> set [single_choice, multi_choice] then
        [header_type, header_question] @ option_letters @ [header_answer]
      else if qtype = true_false then
        [header_type, header_question] @ [word_correct, word_wrong, header_answer]
      else [header_type, header_question] @ [header_answer])"

definition assign_type :: "(nat \<Rightarrow> pystr) \<Rightarrow> question_record \<Rightarrow> question_record" where
  \<comment> \<open>lines 128 and 129: \<open>if not q.get('type'): q['type'] = determine_question_type(q)\<close>\<close>
  "assign_type uc q = (if type q = [] then q\<lparr>type := determine_question_type uc q\<rparr> else q)"

definition headers_of :: "(nat \<Rightarrow> pystr) \<Rightarrow> question_record list \<Rightarrow> error + pystr list" where
  \<comment> \<open>lines 123 to 133: the value of \<open>headers\<close>; \<open>processed_questions[0]\<close> raises
      \<open>IndexError\<close> on the empty list\<close>
  "headers_of uc qs =
     (case get_option_letters qs of
        Inl e \<Rightarrow> Inl e
      | Inr option_letters \<Rightarrow>
          (case map (assign_type uc) qs of
             [] \<Rightarrow> Inl IndexError
           | first # _ \<Rightarrow> Inr (get_headers (type first) option_letters)))"

text \<open>
  The worksheet is the map from (row, column), both counted from 1, to the value written
  by \<open>ws.cell(row=..., column=..., value=...)\<close>; a later write to a cell replaces an earlier
  one.
\<close>

type_synonym sheet = "nat \<times> nat \<Rightarrow> pystr option"

fun write_cells :: "nat \<Rightarrow> nat \<Rightarrow> pystr list \<Rightarrow> sheet \<Rightarrow> sheet" where
  \<comment> \<open>lines 134 and 135: the values of a list into consecutive columns of one row\<close>
  "write_cells row col [] ws = ws"
| "write_cells row col (v # vs) ws = write_cells row (Suc col) vs (ws((row, col) \<mapsto> v))"

fun index_of :: "pystr list \<Rightarrow> pystr \<Rightarrow> error + nat" where
  \<comment> \<open>\<open>list.index\<close>: the first position of the value, \<open>ValueError\<close> when it is absent\<close>
  "index_of [] x = Inl ValueError"
| "index_of (y # ys) x =
     (if y = x then Inr 0
      else (case index_of ys x of Inl e \<Rightarrow> Inl e | Inr k \<Rightarrow> Inr (Suc k)))"

fun write_options :: "pystr list \<Rightarrow> nat \<Rightarrow> nat \<Rightarrow> pystr list \<Rightarrow> sheet \<Rightarrow> error + sheet" where
  \<comment> \<open>lines 146 to 148: the loop over \<open>enumerate(q['options'])\<close>\<close>
  "write_options headers row i [] ws = Inr ws"
| "write_options headers row i (opt # opts) ws =
     (case chr (65 + i) of
        Inl e \<Rightarrow> Inl e
      | Inr l \<Rightarrow>
          (case index_of headers l of
             Inl e \<Rightarrow> Inl e
           | Inr k \<Rightarrow> write_options headers row (Suc i) opts (ws((row, k + 1) \<mapsto> opt))))"

definition write_row :: "pystr list \<Rightarrow> nat \<Rightarrow> question_record \<Rightarrow> sheet \<Rightarrow> error + sheet" where
  \<comment> \<open>lines 140 to 159: one iteration of the loop that writes the rows\<close>
  "write_row headers row q ws =
     (let ws1 = ws((row, 1) \<mapsto> type q, (row, 2) \<mapsto> question q) in
      if type q \<in> set [single_choice, multi_choice] then
        (case write_options headers row 0 (options q) ws1 of
           Inl e \<Rightarrow> Inl e
         | Inr ws2 \<Rightarrow> Inr (ws2((row, length headers) \<mapsto> answer q)))
      else if type q = true_false then
        Inr (ws1((row, 3) \<mapsto> word_correct, (row, 4) \<mapsto> word_wrong, (row, 5) \<mapsto> answer q))
      else Inr (ws1((row, 3) \<mapsto> answer q)))"

fun write_rows :: "pystr list \<Rightarrow> nat \<Rightarrow> question_record list \<Rightarrow> sheet \<Rightarrow> error + sheet" where
  "write_rows headers row [] ws = Inr ws"
| "write_rows headers row (q # qs) ws =
     (case write_row headers row q ws of
        Inl e \<Rightarrow> Inl e
      | Inr ws' \<Rightarrow> write_rows headers (Suc row) qs ws')"

text \<open>
  \<open>write_to_excel\<close> returns nothing in Python. Its two effects are the result here: the
  records of the caller's list with their types assigned in place, and the cells of the
  worksheet that is then saved. The column widths set in lines 164 to 171 do not change any
  cell and are left out, as is the file or buffer the workbook is saved to.
\<close>

definition write_to_excel ::
    "(nat \<Rightarrow> pystr) \<Rightarrow> question_record list \<Rightarrow> error + question_record list \<times> sheet" where
  "write_to_excel uc qs =
     (case headers_of uc qs of
        Inl e \<Rightarrow> Inl e
      | Inr headers \<Rightarrow>
          (let processed_questions = map (assign_type uc) qs in
           case write_rows headers 2 processed_questions (write_cells 1 1 headers Map.empty) of
             Inl e \<Rightarrow> Inl e
           | Inr ws \<Rightarrow> Inr (processed_questions, ws)))"

section \<open>The caller: \<open>main\<close>\<close>

text \<open>
  What \<open>main\<close> of \<open>bot_st1.0.2.py\<close> shows for an uploaded document whose paragraphs were
  read, with the save method left at its first choice (direct download), lines 229 to 286:
  the download button with the workbook and the preview of the records, or the error
  message of the \<open>except\<close> clause. The widgets that do not depend on the document are not
  listed. There is no \<open>else\<close> to \<open>if questions:\<close>.
\<close>

datatype ui_event =
  Download_button sheet
  | Preview "question_record list"
  | Error_message error

definition main :: "(nat \<Rightarrow> pystr) \<Rightarrow> pystr list \<Rightarrow> ui_event list" where
  "main uc paragraphs =
     (case extract_questions_from_docx paragraphs of
        Inl e \<Rightarrow> [Error_message e]
      | Inr qs \<Rightarrow>
          if qs \<noteq> [] then
            (case write_to_excel uc qs of
               Inl e \<Rightarrow> [Error_message e]
             | Inr (processed, ws) \<Rightarrow> [Download_button ws, Preview processed])
          else [])"

section \<open>Definitions that follow the specification's wording\<close>

text \<open>
  The priority rules of section 4.2 of the specification, on the normalized (trimmed,
  upper-cased) answer: a boolean token gives true-false; else two or more characters, all of
  the alphabet A to K, give multi-choice; else one character of the alphabet gives
  single-choice; else single-choice.
\<close>

definition infer_type_spec :: "(nat \<Rightarrow> pystr) \<Rightarrow> pystr \<Rightarrow> pystr" where
  "infer_type_spec uc ans =
     (let normalized = upper uc (strip ans) in
      if normalized \<in> set boolean_tokens then true_false
      else if 2 \<le> length normalized \<and> list_all (\<lambda>c. c \<in> set option_alphabet) normalized
        then multi_choice
      else if length normalized = 1 \<and> hd normalized \<in> set option_alphabet then single_choice
      else single_choice)"

text \<open>
  The removal the specification describes for the answer payload: the first opening brace,
  the characters up to the next closing brace, and that closing brace; nothing else.
\<close>

definition remove_first_span :: "pystr \<Rightarrow> pystr" where
  "remove_first_span s =
     (let before = takeWhile (\<lambda>c. c \<noteq> 123) s;
          from_open = dropWhile (\<lambda>c. c \<noteq> 123) s
      in case from_open of
           [] \<Rightarrow> s
         | _ # inside \<Rightarrow>
             if 125 \<in> set inside then before @ tl (dropWhile (\<lambda>c. c \<noteq> 125) inside) else s)"

text \<open>
  The option letters a batch derives: the length of the longest option list, the set of
  option positions used by any record, and the letters \<open>A\<close>, \<open>B\<close>, ... for the first
  \<open>n\<close> positions in alphabetical order.
\<close>

definition longest_options :: "question_record list \<Rightarrow> nat" where
  "longest_options qs = foldr (\<lambda>q. max (length (options q))) qs 0"

definition option_positions :: "question_record list \<Rightarrow> nat set" where
  "option_positions qs = (\<Union>q \<in> set qs. {..<length (options q)})"

definition letters_upto :: "nat \<Rightarrow> pystr list" where
  "letters_upto n = map (\<lambda>i. [65 + i]) [0..<n]"

text \<open>
  The option texts of a run of paragraphs: for every option line, in order, the trimmed text
  after the letter and its separator.
\<close>

definition option_texts :: "pystr list \<Rightarrow> pystr list" where
  "option_texts paras =
     List.map_filter (\<lambda>para. map_option strip (match_option (strip para))) paras"

section \<open>Evaluation\<close>

text \<open>The definitions that the simplifier unfolds to run the model on a concrete input.\<close>

lemmas str_eval = of_ascii_def strip_def strip_with_def strip_chars_def isspace_def isdecimal_def
  decimal_blocks_def startswith_def endswith_def match_question_start_def match_option_def
  match_answer_def

lemmas seg_eval = extract_questions_from_docx_def init_state_def step_def flush_def
  open_question_def

lemmas label_defs = single_choice_def multi_choice_def true_false_def word_correct_def
  word_wrong_def boolean_tokens_def option_alphabet_def header_type_def header_question_def
  header_answer_def

lemmas infer_eval = determine_question_type_def assign_type_def upper_def upper_char_def
  uncased_def

section \<open>The two segmenters agree\<close>

lemma step_101_eq: "step_101 st para = step st para"
  by (auto simp: step_101_def step_def flush_def open_question_def Let_def
      split: option.splits)

lemma run_101_eq: "run_101 st paras = run st paras"
  by (induction paras arbitrary: st) (auto simp: step_101_eq split: sum.splits)

text \<open>
  Claim C10. For every sequence of paragraphs, \<open>extract_questions_from_docx\<close> of
  \<open>bot_st1.0.1.py\<close> and of \<open>bot_st1.0.2.py\<close> give the same result: the same exception, or the
  same sequence of question records.
\<close>

theorem segmenters_equal:
  "extract_questions_from_docx_101 paragraphs = extract_questions_from_docx paragraphs"
  by (auto simp: extract_questions_from_docx_101_def extract_questions_from_docx_def
      run_101_eq flush_def split: sum.splits option.splits)

section \<open>Type inference\<close>

lemma contains_single: "contains hay [c] = (c \<in> set hay)"
  by (induction hay) (auto simp: startswith_def)

text \<open>
  Claim C4. For every answer string and every upper-case mapping, \<open>determine_question_type\<close>
  returns what the priority rules of section 4.2 give on the normalized answer; the result
  is one of the three labels and is never empty. On Scenario C the segmenter leaves the type
  empty and the answer \<open>AC\<close> is inferred as multi-choice.
\<close>

theorem determine_question_type_rules:
  "determine_question_type uc q = infer_type_spec uc (answer q) \<and>
   determine_question_type uc q \<in> {single_choice, multi_choice, true_false} \<and>
   determine_question_type uc q \<noteq> [] \<and>
   extract_questions_from_docx
     (map of_ascii [''2. Pick two{AC}'', ''A. x'', ''B. y'', ''C. z'']) =
   Inr [\<lparr>type = [], question = of_ascii ''Pick two'',
         options = [of_ascii ''x'', of_ascii ''y'', of_ascii ''z''],
         answer = of_ascii ''AC''\<rparr>] \<and>
   determine_question_type uc
     \<lparr>type = [], question = of_ascii ''Pick two'',
      options = [of_ascii ''x'', of_ascii ''y'', of_ascii ''z''],
      answer = of_ascii ''AC''\<rparr> = multi_choice"
proof -
  have rules: "determine_question_type uc q = infer_type_spec uc (answer q)"
    by (cases "upper uc (strip (answer q))")
       (auto simp: determine_question_type_def infer_type_spec_def Let_def contains_single
          list_all_iff Suc_le_eq)
  have range: "determine_question_type uc q \<in> {single_choice, multi_choice, true_false}"
    by (simp add: determine_question_type_def Let_def)
  have nonempty: "determine_question_type uc q \<noteq> []"
    using range by (auto simp: label_defs)
  have seg: "extract_questions_from_docx
     (map of_ascii [''2. Pick two{AC}'', ''A. x'', ''B. y'', ''C. z'']) =
   Inr [\<lparr>type = [], question = of_ascii ''Pick two'',
         options = [of_ascii ''x'', of_ascii ''y'', of_ascii ''z''],
         answer = of_ascii ''AC''\<rparr>]"
    by (simp add: str_eval seg_eval)
  have scenario: "determine_question_type uc
     \<lparr>type = [], question = of_ascii ''Pick two'',
      options = [of_ascii ''x'', of_ascii ''y'', of_ascii ''z''],
      answer = of_ascii ''AC''\<rparr> = multi_choice"
    by (simp add: determine_question_type_def str_eval label_defs upper_def upper_char_def)
  from rules range nonempty seg scenario show ?thesis by blast
qed

section \<open>Scenarios of the segmenter\<close>

text \<open>
  Claim C7. On the four lines of Scenario A the segmenter returns exactly one record: the
  type named by the marker, the stem \<open>What is 2+2?\<close>, the options \<open>3\<close> and \<open>4\<close>, the answer
  \<open>B\<close>. The first equation has the marker as the specification writes it, the second has
  the program's own label for single-choice questions between the \<open>##\<close>.
\<close>

theorem scenario_A:
  "extract_questions_from_docx
     (map of_ascii [''##single-choice##'', ''1. What is 2+2?{B}'', ''A. 3'', ''B. 4'']) =
   Inr [\<lparr>type = of_ascii ''single-choice'', question = of_ascii ''What is 2+2?'',
         options = [of_ascii ''3'', of_ascii ''4''], answer = of_ascii ''B''\<rparr>] \<and>
   extract_questions_from_docx
     (([35, 35] @ single_choice @ [35, 35]) #
      map of_ascii [''1. What is 2+2?{B}'', ''A. 3'', ''B. 4'']) =
   Inr [\<lparr>type = single_choice, question = of_ascii ''What is 2+2?'',
         options = [of_ascii ''3'', of_ascii ''4''], answer = of_ascii ''B''\<rparr>]"
  by (simp add: str_eval seg_eval label_defs)

text \<open>
  Claim C2. An option line that comes before any question line is not dropped: the lookup
  \<open>current_question['options']\<close> on the empty dictionary raises \<open>KeyError\<close>, in both
  files, and \<open>main\<close> shows an error for the whole document. The line \<open>E. stray\<close> of
  Scenario D is ignored only because \<open>E\<close> is not one of the letters A to D.
\<close>

theorem option_before_question:
  "extract_questions_from_docx [of_ascii ''A. stray''] = Inl KeyError \<and>
   extract_questions_from_docx_101 [of_ascii ''A. stray''] = Inl KeyError \<and>
   main uc [of_ascii ''A. stray''] = [Error_message KeyError] \<and>
   extract_questions_from_docx [of_ascii ''E. stray''] = Inr []"
  by (simp add: str_eval seg_eval main_def extract_questions_from_docx_101_def step_101_def)

section \<open>The answer payload of a question line\<close>

lemma scan_close_found:
  "125 \<notin> set g \<Longrightarrow> 10 \<notin> set g \<Longrightarrow> scan_close (g @ 125 # r) = Some (g, r)"
  by (induction g) auto

lemma match_answer_span:
  assumes "inner \<noteq> []" "10 \<notin> set inner" "125 \<notin> set (tl inner)"
  shows "match_answer (123 # inner @ 125 # r) = Some (inner, r)"
proof (cases inner)
  case Nil
  with assms show ?thesis by simp
next
  case (Cons c cs)
  with assms have "scan_close (cs @ 125 # r) = Some (cs, r)"
    by (intro scan_close_found) auto
  with Cons assms show ?thesis
    by (simp add: match_answer_def)
qed

lemma match_answer_other: "c \<noteq> 123 \<Longrightarrow> match_answer (c # cs) = None"
  by (simp add: match_answer_def split: list.splits)

lemma re_search_answer_skip:
  "123 \<notin> set pre \<Longrightarrow> re_search_answer (pre @ s) = re_search_answer s"
  by (induction pre) (auto simp: match_answer_other)

lemma re_sub_answer_skip:
  "123 \<notin> set pre \<Longrightarrow> re_sub_answer (pre @ s) = pre @ re_sub_answer s"
  by (induction pre) (auto simp: match_answer_other)

lemma re_search_answer_span:
  assumes "123 \<notin> set pre" "inner \<noteq> []" "10 \<notin> set inner" "125 \<notin> set (tl inner)"
  shows "re_search_answer (pre @ 123 # inner @ 125 # post) = Some inner"
  using assms by (simp add: re_search_answer_skip match_answer_span)

lemma re_sub_answer_span:
  assumes "123 \<notin> set pre" "inner \<noteq> []" "10 \<notin> set inner" "125 \<notin> set (tl inner)"
  shows "re_sub_answer (pre @ 123 # inner @ 125 # post) = pre @ re_sub_answer post"
  using assms by (simp add: re_sub_answer_skip match_answer_span)

lemma re_search_answer_none: "123 \<notin> set s \<Longrightarrow> re_search_answer s = None"
  using re_search_answer_skip [of s "[]"] by simp

lemma re_sub_answer_none: "123 \<notin> set s \<Longrightarrow> re_sub_answer s = s"
  using re_sub_answer_skip [of s "[]"] by simp

lemma not_decimal_hash: "\<not> isdecimal 35"
  by (simp add: isdecimal_def decimal_blocks_def)

lemma question_start_not_marker:
  assumes "match_question_start text = Some rest"
  shows "text \<noteq> [] \<and> \<not> startswith [35, 35] text"
proof -
  have "text \<noteq> []"
    using assms by (auto simp: match_question_start_def)
  moreover have "\<not> startswith [35, 35] text"
  proof
    assume "startswith [35, 35] text"
    then obtain r where "text = 35 # 35 # r"
      by (cases "text"; cases "tl text") (auto simp: startswith_def)
    with assms show False
      by (simp add: match_question_start_def not_decimal_hash)
  qed
  ultimately show ?thesis by simp
qed

lemma step_question_start:
  assumes "match_question_start (strip para) = Some rest"
  shows "step st para =
     Inr (st\<lparr>questions := flush st,
             current_question := Some (open_question (question_type st) rest)\<rparr>)"
  using assms question_start_not_marker [OF assms] by (simp add: step_def)

text \<open>
  Claim C3, as amended. Take a question line whose remainder, after the number prefix is
  stripped and the text trimmed, is \<open>pre{inner}post\<close> with no opening brace in \<open>pre\<close>, and
  \<open>inner\<close> not empty, without a line feed, and without a closing brace after its first
  character. Then the line opens a record whose answer is \<open>inner\<close>, the text of the first
  span, and whose stem is \<open>pre\<close> followed by \<open>post\<close> with every brace span of \<open>post\<close> removed
  as well, trimmed: a \<open>post\<close> without an opening brace stays as it is, and a second span
  in \<open>post\<close> is removed like the first.
\<close>

theorem answer_span_amended:
  assumes "match_question_start (strip para) = Some rest"
    and "strip rest = pre @ 123 # inner @ 125 # post"
    and "123 \<notin> set pre" and "inner \<noteq> []" and "10 \<notin> set inner" and "125 \<notin> set (tl inner)"
  shows "step st para =
     Inr (st\<lparr>questions := flush st,
             current_question :=
               Some \<lparr>type = question_type st, question = strip (pre @ re_sub_answer post),
                     options = [], answer = inner\<rparr>\<rparr>) \<and>
     (123 \<notin> set post \<longrightarrow> re_sub_answer post = post) \<and>
     (\<forall>pre' inner' post'.
        post = pre' @ 123 # inner' @ 125 # post' \<and> 123 \<notin> set pre' \<and> inner' \<noteq> [] \<and>
        10 \<notin> set inner' \<and> 125 \<notin> set (tl inner') \<longrightarrow>
        re_sub_answer post = pre' @ re_sub_answer post')"
proof -
  have "open_question (question_type st) rest =
      \<lparr>type = question_type st, question = strip (pre @ re_sub_answer post),
       options = [], answer = inner\<rparr>"
    using assms(2-) by (simp add: open_question_def re_search_answer_span re_sub_answer_span)
  with step_question_start [OF assms(1)] show ?thesis
    by (simp add: re_sub_answer_none re_sub_answer_span)
qed

text \<open>
  The claim as stated fails on the line \<open>1. a{B} c{D}\<close>: removing the first span only would
  leave the stem \<open>a c{D}\<close>, while the program removes both spans and stores \<open>a c\<close>.
\<close>

theorem answer_span_counterexample:
  "extract_questions_from_docx [of_ascii ''1. a{B} c{D}''] =
     Inr [\<lparr>type = [], question = of_ascii ''a c'', options = [], answer = of_ascii ''B''\<rparr>] \<and>
   strip (remove_first_span (of_ascii ''a{B} c{D}'')) = of_ascii ''a c{D}'' \<and>
   of_ascii ''a c'' \<noteq> of_ascii ''a c{D}''"
  by (simp add: str_eval seg_eval remove_first_span_def)

text \<open>The amended statement on that line.\<close>

theorem answer_span_amended_witness:
  "step init_state (of_ascii ''1. a{B} c{D}'') =
     Inr (init_state\<lparr>questions := [],
             current_question :=
               Some \<lparr>type = [], question = of_ascii ''a c'', options = [],
                     answer = of_ascii ''B''\<rparr>\<rparr>) \<and>
   re_sub_answer (of_ascii '' c{D}'') = of_ascii '' c''"
proof -
  have 1: "match_question_start (strip (of_ascii ''1. a{B} c{D}'')) =
      Some (of_ascii ''a{B} c{D}'')"
    by (simp add: str_eval)
  have 2: "strip (of_ascii ''a{B} c{D}'') =
      of_ascii ''a'' @ 123 # of_ascii ''B'' @ 125 # of_ascii '' c{D}''"
    by (simp add: str_eval)
  have 3: "123 \<notin> set (of_ascii ''a'')" "of_ascii ''B'' \<noteq> []" "10 \<notin> set (of_ascii ''B'')"
    "125 \<notin> set (tl (of_ascii ''B''))"
    by (simp_all add: of_ascii_def)
  have a4: "of_ascii '' c{D}'' = of_ascii '' c'' @ 123 # of_ascii ''D'' @ 125 # []"
    by (simp add: of_ascii_def)
  have b4: "123 \<notin> set (of_ascii '' c'')"
    by (simp add: of_ascii_def)
  have c4: "of_ascii ''D'' \<noteq> [] \<and> 10 \<notin> set (of_ascii ''D'') \<and>
     125 \<notin> set (tl (of_ascii ''D''))"
    by (simp add: of_ascii_def)
  note 4 = conjI [OF a4 conjI [OF b4 c4]]
  from answer_span_amended [OF 1 2 3, of init_state] 4
  have "re_sub_answer (of_ascii '' c{D}'') = of_ascii '' c'' @ re_sub_answer []"
    by blast
  moreover from answer_span_amended [OF 1 2 3, of init_state]
  have "step init_state (of_ascii ''1. a{B} c{D}'') =
     Inr (init_state\<lparr>questions := flush init_state,
             current_question :=
               Some \<lparr>type = question_type init_state,
                     question = strip (of_ascii ''a'' @ re_sub_answer (of_ascii '' c{D}'')),
                     options = [], answer = of_ascii ''B''\<rparr>\<rparr>)"
    by blast
  ultimately show ?thesis
    by (simp add: str_eval init_state_def flush_def)
qed

section \<open>The end of the input\<close>

lemma marker_not_option: "startswith [35, 35] s \<Longrightarrow> match_option s = None"
  by (cases s) (auto simp: startswith_def match_option_def)

lemma run_append:
  "run st (xs @ ys) = (case run st xs of Inl e \<Rightarrow> Inl e | Inr st' \<Rightarrow> run st' ys)"
  by (induction xs arbitrary: st) (auto split: sum.splits)

lemma step_open_other:
  assumes "current_question st = Some q" "match_question_start (strip para) = None"
  shows "\<exists>st'. step st para = Inr st' \<and> questions st' = questions st \<and>
     current_question st' = Some (q\<lparr>options := options q @ option_texts [para]\<rparr>)"
proof (cases "startswith [35, 35] (strip para)")
  case True
  with assms marker_not_option [of "strip para"] show ?thesis
    by (auto simp: step_def option_texts_def Let_def)
next
  case False
  with assms show ?thesis
    by (auto simp: step_def option_texts_def Let_def match_option_def
        split: option.splits)
qed

lemma option_texts_Cons: "option_texts (p # ps) = option_texts [p] @ option_texts ps"
  by (simp add: option_texts_def split: option.splits)

lemma run_open:
  assumes "current_question st = Some q"
    and "list_all (\<lambda>para. match_question_start (strip para) = None) post"
  shows "\<exists>st'. run st post = Inr st' \<and> questions st' = questions st \<and>
     current_question st' = Some (q\<lparr>options := options q @ option_texts post\<rparr>)"
  using assms
proof (induction post arbitrary: st q)
  case Nil
  then show ?case
    by (simp add: option_texts_def)
next
  case (Cons p ps)
  from Cons.prems have np: "match_question_start (strip p) = None"
    and nps: "list_all (\<lambda>para. match_question_start (strip para) = None) ps"
    by simp_all
  from step_open_other [OF Cons.prems(1) np] obtain st1 where
    s: "step st p = Inr st1" and q1: "questions st1 = questions st"
    and c1: "current_question st1 = Some (q\<lparr>options := options q @ option_texts [p]\<rparr>)"
    by blast
  from Cons.IH [OF c1 nps] obtain st2 where
    r: "run st1 ps = Inr st2" and q2: "questions st2 = questions st1"
    and c2: "current_question st2 =
      Some (q\<lparr>options := options q @ option_texts [p], options :=
        options (q\<lparr>options := options q @ option_texts [p]\<rparr>) @ option_texts ps\<rparr>)"
    by blast
  from s r q1 q2 c2 show ?case
    by (simp add: option_texts_Cons [of p ps])
qed

lemma run_idle:
  assumes "list_all (\<lambda>para. match_question_start (strip para) = None \<and>
      match_option (strip para) = None) paras"
  shows "\<exists>st'. run st paras = Inr st' \<and> questions st' = questions st \<and>
     current_question st' = current_question st"
  using assms
proof (induction paras arbitrary: st)
  case Nil
  then show ?case by simp
next
  case (Cons p ps)
  then have "\<exists>st1. step st p = Inr st1 \<and> questions st1 = questions st \<and>
      current_question st1 = current_question st"
    by (auto simp: step_def Let_def)
  then obtain st1 where "step st p = Inr st1" "questions st1 = questions st"
    "current_question st1 = current_question st"
    by blast
  moreover from Cons obtain st2 where "run st1 ps = Inr st2" "questions st2 = questions st1"
    "current_question st2 = current_question st1"
    by fastforce
  ultimately show ?case by simp
qed

text \<open>
  Claim C8, as amended. When the input ends while a question is open, that question is
  appended as the last record: if the paragraphs before a question line leave the loop in
  state \<open>st\<close> and no later paragraph is a question line, the result is the records flushed
  from \<open>st\<close> followed by the record that line opens, with the option texts of the later
  paragraphs. An input without question lines and without option lines, the empty input in
  particular, gives the empty sequence. When the segmenter returns the empty sequence,
  \<open>main\<close> writes no workbook and shows nothing: there is no report that no question was
  found.
\<close>

theorem exhausted_input_amended:
  "(run init_state pre = Inr st \<and> match_question_start (strip line) = Some rest \<and>
    list_all (\<lambda>para. match_question_start (strip para) = None) post \<longrightarrow>
    extract_questions_from_docx (pre @ line # post) =
      Inr (flush st @ [(open_question (question_type st) rest)\<lparr>options := option_texts post\<rparr>])) \<and>
   (list_all (\<lambda>para. match_question_start (strip para) = None \<and>
        match_option (strip para) = None) paras \<longrightarrow>
    extract_questions_from_docx paras = Inr []) \<and>
   extract_questions_from_docx [] = Inr [] \<and>
   (extract_questions_from_docx paras = Inr [] \<longrightarrow> main uc paras = [])"
proof -
  have last: "extract_questions_from_docx (pre @ line # post) =
      Inr (flush st @ [(open_question (question_type st) rest)\<lparr>options := option_texts post\<rparr>])"
    if pre: "run init_state pre = Inr st"
      and start: "match_question_start (strip line) = Some rest"
      and post: "list_all (\<lambda>para. match_question_start (strip para) = None) post"
  proof -
    let ?q = "open_question (question_type st) rest"
    let ?st = "st\<lparr>questions := flush st, current_question := Some ?q\<rparr>"
    have "current_question ?st = Some ?q" by simp
    from run_open [OF this post] obtain st' where
      "run ?st post = Inr st'" "questions st' = questions ?st"
      "current_question st' = Some (?q\<lparr>options := options ?q @ option_texts post\<rparr>)"
      by blast
    moreover have "options ?q = []"
      by (simp add: open_question_def Let_def split: option.splits)
    ultimately show ?thesis
      using pre step_question_start [OF start, of st]
      by (simp add: extract_questions_from_docx_def run_append flush_def)
  qed
  have idle: "extract_questions_from_docx paras = Inr []"
    if "list_all (\<lambda>para. match_question_start (strip para) = None \<and>
        match_option (strip para) = None) paras"
    using run_idle [OF that, of init_state]
    by (auto simp: extract_questions_from_docx_def flush_def init_state_def)
  have empty: "extract_questions_from_docx [] = Inr []"
    by (simp add: seg_eval)
  have silent: "main uc paras = []" if "extract_questions_from_docx paras = Inr []"
    using that by (simp add: main_def)
  from last idle empty silent show ?thesis by blast
qed

text \<open>
  The claim as stated fails twice. On the empty input \<open>main\<close> shows nothing at all, so the
  condition is not reported. And an input without question lines need not give the empty
  sequence: with an option line it raises \<open>KeyError\<close>.
\<close>

theorem exhausted_input_counterexample:
  "extract_questions_from_docx [] = Inr [] \<and> main uncased [] = [] \<and>
   extract_questions_from_docx [of_ascii ''A. x''] = Inl KeyError"
  by (simp add: str_eval seg_eval main_def)

text \<open>The amended statement on two inputs.\<close>

theorem exhausted_input_amended_witness:
  "extract_questions_from_docx
     (map of_ascii [''1. a{B}'', ''2. b{C}'', ''A. x'', ''stray'', ''B. y'']) =
   Inr [\<lparr>type = [], question = of_ascii ''a'', options = [], answer = of_ascii ''B''\<rparr>,
        \<lparr>type = [], question = of_ascii ''b'', options = [of_ascii ''x'', of_ascii ''y''],
         answer = of_ascii ''C''\<rparr>] \<and>
   extract_questions_from_docx (map of_ascii [''hello'', '''', ''##t##'']) = Inr [] \<and>
   main uncased (map of_ascii [''hello'', '''', ''##t##'']) = []"
proof -
  let ?st = "\<lparr>questions = [], current_question =
      Some \<lparr>type = [], question = of_ascii ''a'', options = [], answer = of_ascii ''B''\<rparr>,
      question_type = []\<rparr>"
  have pre: "run init_state [of_ascii ''1. a{B}''] = Inr ?st"
    by (simp add: str_eval seg_eval)
  have start: "match_question_start (strip (of_ascii ''2. b{C}'')) = Some (of_ascii ''b{C}'')"
    by (simp add: str_eval)
  have post: "list_all (\<lambda>para. match_question_start (strip para) = None)
      (map of_ascii [''A. x'', ''stray'', ''B. y''])"
    by (simp add: str_eval)
  have idle: "list_all (\<lambda>para. match_question_start (strip para) = None \<and>
        match_option (strip para) = None) (map of_ascii [''hello'', '''', ''##t##''])"
    by (simp add: str_eval)
  note fact = exhausted_input_amended
    [of "[of_ascii ''1. a{B}'']" ?st "of_ascii ''2. b{C}''" "of_ascii ''b{C}''"
      "map of_ascii [''A. x'', ''stray'', ''B. y'']" "map of_ascii [''hello'', '''', ''##t##'']"
      uncased]
  from fact pre start post
  have "extract_questions_from_docx
      ([of_ascii ''1. a{B}''] @ of_ascii ''2. b{C}'' # map of_ascii [''A. x'', ''stray'', ''B. y'']) =
      Inr (flush ?st @ [(open_question (question_type ?st) (of_ascii ''b{C}''))
        \<lparr>options := option_texts (map of_ascii [''A. x'', ''stray'', ''B. y''])\<rparr>])"
    by blast
  then have first: "extract_questions_from_docx
     (map of_ascii [''1. a{B}'', ''2. b{C}'', ''A. x'', ''stray'', ''B. y'']) =
   Inr [\<lparr>type = [], question = of_ascii ''a'', options = [], answer = of_ascii ''B''\<rparr>,
        \<lparr>type = [], question = of_ascii ''b'', options = [of_ascii ''x'', of_ascii ''y''],
         answer = of_ascii ''C''\<rparr>]"
    by (simp add: flush_def open_question_def option_texts_def str_eval)
  from fact idle
  have "extract_questions_from_docx (map of_ascii [''hello'', '''', ''##t##'']) = Inr []"
    by blast
  with fact first show ?thesis by blast
qed

section \<open>The column schema\<close>

lemma add_letters_eq:
  "add_letters i opts L =
     (if opts = [] \<or> 65 + i + length opts \<le> 1114112
      then Inr (L \<union> (\<lambda>k. [65 + k]) ` {i..<i + length opts}) else Inl ValueError)"
proof (induction opts arbitrary: i L)
  case Nil
  then show ?case by simp
next
  case (Cons opt opts)
  have "{i..<i + length (opt # opts)} = insert i {Suc i..<Suc i + length opts}"
    by auto
  with Cons show ?case
    by (auto simp: chr_def)
qed

lemma collect_letters_eq:
  "collect_letters qs L =
     (if longest_options qs \<le> 1114047
      then Inr (L \<union> (\<lambda>k. [65 + k]) ` {..<longest_options qs}) else Inl ValueError)"
proof (induction qs arbitrary: L)
  case Nil
  then show ?case by (simp add: longest_options_def)
next
  case (Cons q qs)
  have split: "{..<max (length (options q)) (longest_options qs)} =
      {0..<0 + length (options q)} \<union> {..<longest_options qs}"
    by auto
  have lo: "longest_options (q # qs) = max (length (options q)) (longest_options qs)"
    by (simp add: longest_options_def)
  show ?case
    unfolding collect_letters.simps add_letters_eq Cons.IH lo split
    by (auto simp: image_Un)
qed

lemma letters_sorted: "sorted (letters_upto n) \<and> distinct (letters_upto n)"
proof -
  have "sorted_wrt (<) (letters_upto n)"
    unfolding letters_upto_def
    by (simp add: sorted_wrt_map)
  then show ?thesis
    using strict_sorted_iff by blast
qed
lemma get_option_letters_eq:
  "get_option_letters qs =
     (if longest_options qs \<le> 1114047 then Inr (letters_upto (longest_options qs))
      else Inl ValueError)"
proof -
  have "(\<lambda>k. [65 + k]) ` {..<n} = set (letters_upto n)" for n
    by (auto simp: letters_upto_def)
  then show ?thesis
    using letters_sorted
    by (simp add: get_option_letters_def collect_letters_eq sorted_list_of_set.idem_if_sorted_distinct)
qed

lemma longest_options_le:
  "longest_options qs \<le> n \<longleftrightarrow> list_all (\<lambda>r. length (options r) \<le> n) qs"
  by (induction qs) (auto simp: longest_options_def)

lemma option_positions_eq: "option_positions qs = {..<longest_options qs}"
  by (induction qs) (auto simp: option_positions_def longest_options_def)

lemma headers_of_eq:
  "headers_of uc (q # qs) =
     (if longest_options (q # qs) \<le> 1114047
      then Inr (get_headers (type (assign_type uc q)) (letters_upto (longest_options (q # qs))))
      else Inl ValueError)"
  by (simp add: headers_of_def get_option_letters_eq)

lemma write_cells_at:
  "write_cells r c vs ws (r', c') =
     (if r' = r \<and> c \<le> c' \<and> c' < c + length vs then Some (vs ! (c' - c)) else ws (r', c'))"
proof (induction vs arbitrary: c ws)
  case Nil
  then show ?case by auto
next
  case (Cons v vs)
  have "write_cells r c (v # vs) ws (r', c') =
      (if r' = r \<and> Suc c \<le> c' \<and> c' < Suc c + length vs then Some (vs ! (c' - Suc c))
       else (ws((r, c) \<mapsto> v)) (r', c'))"
    by (simp only: write_cells.simps Cons.IH)
  also have "\<dots> = (if r' = r \<and> c \<le> c' \<and> c' < c + length (v # vs)
       then Some ((v # vs) ! (c' - c)) else ws (r', c'))"
    by (auto simp: nth_Cons' Suc_diff_le)
  finally show ?case .
qed

lemma write_options_other_row:
  "write_options headers row i opts ws = Inr ws' \<Longrightarrow> r \<noteq> row \<Longrightarrow> ws' (r, c) = ws (r, c)"
proof (induction opts arbitrary: i ws)
  case Nil
  then show ?case by simp
next
  case (Cons opt opts)
  then show ?case
    by (fastforce split: sum.splits)
qed

lemma write_row_other_row:
  "write_row headers row q ws = Inr ws' \<Longrightarrow> r \<noteq> row \<Longrightarrow> ws' (r, c) = ws (r, c)"
  by (auto simp: write_row_def Let_def split: if_splits sum.splits
      dest: write_options_other_row)

lemma write_rows_rows_above:
  "write_rows headers row qs ws = Inr ws' \<Longrightarrow> r < row \<Longrightarrow> ws' (r, c) = ws (r, c)"
proof (induction qs arbitrary: row ws)
  case Nil
  then show ?case by simp
next
  case (Cons q qs)
  from Cons.prems obtain ws1 where 1: "write_row headers row q ws = Inr ws1"
    and 2: "write_rows headers (Suc row) qs ws1 = Inr ws'"
    by (auto split: sum.splits)
  from Cons.IH [OF 2] Cons.prems(2) have "ws' (r, c) = ws1 (r, c)" by simp
  also from write_row_other_row [OF 1] Cons.prems(2) have "ws1 (r, c) = ws (r, c)" by simp
  finally show ?case .
qed

text \<open>
  Claim C5, as amended. For every non-empty sequence of records in which no record has more
  than 1114047 options, the header row is computed once from the type of the first record,
  inferred when it is empty: for a choice type it is the type header, the stem header, the
  letters of the positions up to the longest option list in alphabetical order, and the
  answer header; for true-false it is the type and stem headers, the two labels and the
  answer header; otherwise the type, stem and answer headers. When \<open>write_to_excel\<close>
  returns, row 1 of the worksheet holds exactly these headers.
\<close>

theorem header_row_amended:
  assumes "list_all (\<lambda>r. length (options r) \<le> 1114047) (q # qs)"
  shows "headers_of uc (q # qs) =
     Inr (let t = (if type q = [] then determine_question_type uc q else type q) in
          if t = single_choice \<or> t = multi_choice then
            [header_type, header_question] @ letters_upto (longest_options (q # qs)) @
            [header_answer]
          else if t = true_false then
            [header_type, header_question, word_correct, word_wrong, header_answer]
          else [header_type, header_question, header_answer]) \<and>
     (\<forall>ps ws hs. write_to_excel uc (q # qs) = Inr (ps, ws) \<and> headers_of uc (q # qs) = Inr hs \<longrightarrow>
        (\<forall>c < length hs. ws (1, Suc c) = Some (hs ! c)))"
proof -
  have "longest_options (q # qs) \<le> 1114047"
    using assms by (simp only: longest_options_le)
  then have first: "headers_of uc (q # qs) =
     Inr (let t = (if type q = [] then determine_question_type uc q else type q) in
          if t = single_choice \<or> t = multi_choice then
            [header_type, header_question] @ letters_upto (longest_options (q # qs)) @
            [header_answer]
          else if t = true_false then
            [header_type, header_question, word_correct, word_wrong, header_answer]
          else [header_type, header_question, header_answer])"
    by (simp add: headers_of_eq get_headers_def assign_type_def Let_def)
  have second: "ws (1, Suc c) = Some (hs ! c)"
    if w: "write_to_excel uc (q # qs) = Inr (ps, ws)" and h: "headers_of uc (q # qs) = Inr hs"
      and c: "c < length hs" for ps ws hs c
  proof -
    from w h have "write_rows hs 2 (map (assign_type uc) (q # qs))
        (write_cells 1 1 hs Map.empty) = Inr ws"
      by (auto simp: write_to_excel_def Let_def split: sum.splits)
    from write_rows_rows_above [OF this, of 1 "Suc c"]
    have "ws (1, Suc c) = write_cells 1 1 hs Map.empty (1, Suc c)" by simp
    with c show ?thesis by (simp add: write_cells_at)
  qed
  from first second show ?thesis by blast
qed

text \<open>
  The claim as stated fails on a record with 1114048 options: \<open>chr(65 + 1114047)\<close> is
  outside the range of \<open>chr\<close>, and \<open>get_option_letters\<close> raises \<open>ValueError\<close> before any
  header is chosen.
\<close>

theorem header_row_counterexample:
  "headers_of uncased
     [\<lparr>type = single_choice, question = [], options = replicate 1114048 [], answer = []\<rparr>] =
   Inl ValueError"
  by (simp add: headers_of_eq longest_options_def)

text \<open>The amended statement on a batch of two records, the first without a type.\<close>

theorem header_row_amended_witness:
  "list_all (\<lambda>r. length (options r) \<le> 1114047)
     [\<lparr>type = [], question = of_ascii ''q'', options = [of_ascii ''x'', of_ascii ''y''],
       answer = of_ascii ''A''\<rparr>,
      \<lparr>type = true_false, question = of_ascii ''r'', options = [], answer = of_ascii ''T''\<rparr>] \<and>
   headers_of uncased
     [\<lparr>type = [], question = of_ascii ''q'', options = [of_ascii ''x'', of_ascii ''y''],
       answer = of_ascii ''A''\<rparr>,
      \<lparr>type = true_false, question = of_ascii ''r'', options = [], answer = of_ascii ''T''\<rparr>] =
   Inr [header_type, header_question, [65], [66], header_answer] \<and>
   (\<exists>ps ws. write_to_excel uncased
     [\<lparr>type = [], question = of_ascii ''q'', options = [of_ascii ''x'', of_ascii ''y''],
       answer = of_ascii ''A''\<rparr>,
      \<lparr>type = true_false, question = of_ascii ''r'', options = [], answer = of_ascii ''T''\<rparr>] =
     Inr (ps, ws) \<and>
     map (\<lambda>c. ws (1, c)) [1, 2, 3, 4, 5] =
     map Some [header_type, header_question, [65], [66], header_answer])"
proof -
  let ?q = "\<lparr>type = [], question = of_ascii ''q'', options = [of_ascii ''x'', of_ascii ''y''],
       answer = of_ascii ''A''\<rparr>"
  let ?r = "\<lparr>type = true_false, question = of_ascii ''r'', options = [], answer = of_ascii ''T''\<rparr>"
  let ?hs = "[header_type, header_question, [65], [66], header_answer]"
  have bound: "list_all (\<lambda>r. length (options r) \<le> 1114047) [?q, ?r]"
    by simp
  note fact = header_row_amended [OF bound, of uncased]
  have t: "determine_question_type uncased ?q = single_choice"
    by (simp add: infer_eval str_eval label_defs)
  have l: "letters_upto (longest_options [?q, ?r]) = [[65], [66]]"
    by (simp add: letters_upto_def longest_options_def upt_rec)
  from fact have hs: "headers_of uncased [?q, ?r] = Inr ?hs"
    by (simp add: t l)
  have "\<exists>ps ws. write_to_excel uncased [?q, ?r] = Inr (ps, ws)"
    unfolding write_to_excel_def hs
    by (simp add: write_row_def chr_def assign_type_def t label_defs)
  then obtain ps ws where w: "write_to_excel uncased [?q, ?r] = Inr (ps, ws)"
    by blast
  with fact hs have "\<forall>c < length ?hs. ws (1, Suc c) = Some (?hs ! c)"
    by blast
  then have "map (\<lambda>c. ws (1, c)) [1, 2, 3, 4, 5] = map Some ?hs"
    by (simp add: All_less_Suc2 numeral_eq_Suc)
  with w bound hs show ?thesis by blast
qed

text \<open>
  Claim C6. The result of the schema derivation, the header sequence or the exception, does
  not change when the records after the first are permuted; more generally it is the same
  for two non-empty batches whose first records have the same type after inference and
  whose records use the same set of option positions.
\<close>

theorem schema_determinism:
  "(mset rest' = mset rest \<longrightarrow> headers_of uc (q # rest') = headers_of uc (q # rest)) \<and>
   (type (assign_type uc q) = type (assign_type uc q') \<and>
    option_positions (q # qs) = option_positions (q' # qs') \<longrightarrow>
    headers_of uc (q # qs) = headers_of uc (q' # qs'))"
proof -
  have general: "headers_of uc (q # qs) = headers_of uc (q' # qs')"
    if "type (assign_type uc q) = type (assign_type uc q')"
      and "option_positions (q # qs) = option_positions (q' # qs')" for q q' qs qs'
  proof -
    from that(2) have "longest_options (q # qs) = longest_options (q' # qs')"
      by (simp only: option_positions_eq lessThan_eq_iff)
    with that(1) show ?thesis
      by (simp only: headers_of_eq)
  qed
  have "option_positions (q # rest') = option_positions (q # rest)" if "mset rest' = mset rest"
    using mset_eq_setD [OF that] by (simp add: option_positions_def)
  with general show ?thesis by blast
qed

text \<open>
  The statement on a batch of three records and its permutation, and on a one-record batch
  with the same first type and the same option positions.
\<close>

theorem schema_determinism_witness:
  "mset [\<lparr>type = true_false, question = of_ascii ''r'', options = [], answer = of_ascii ''T''\<rparr>,
         \<lparr>type = multi_choice, question = of_ascii ''s'',
          options = [of_ascii ''x'', of_ascii ''y'', of_ascii ''z''], answer = of_ascii ''AC''\<rparr>] =
   mset [\<lparr>type = multi_choice, question = of_ascii ''s'',
          options = [of_ascii ''x'', of_ascii ''y'', of_ascii ''z''], answer = of_ascii ''AC''\<rparr>,
         \<lparr>type = true_false, question = of_ascii ''r'', options = [], answer = of_ascii ''T''\<rparr>] \<and>
   headers_of uncased
     [\<lparr>type = single_choice, question = of_ascii ''q'', options = [of_ascii ''u''],
       answer = of_ascii ''A''\<rparr>,
      \<lparr>type = true_false, question = of_ascii ''r'', options = [], answer = of_ascii ''T''\<rparr>,
      \<lparr>type = multi_choice, question = of_ascii ''s'',
       options = [of_ascii ''x'', of_ascii ''y'', of_ascii ''z''], answer = of_ascii ''AC''\<rparr>] =
   headers_of uncased
     [\<lparr>type = single_choice, question = of_ascii ''q'', options = [of_ascii ''u''],
       answer = of_ascii ''A''\<rparr>,
      \<lparr>type = multi_choice, question = of_ascii ''s'',
       options = [of_ascii ''x'', of_ascii ''y'', of_ascii ''z''], answer = of_ascii ''AC''\<rparr>,
      \<lparr>type = true_false, question = of_ascii ''r'', options = [], answer = of_ascii ''T''\<rparr>] \<and>
   headers_of uncased
     [\<lparr>type = single_choice, question = of_ascii ''q'', options = [of_ascii ''u''],
       answer = of_ascii ''A''\<rparr>,
      \<lparr>type = multi_choice, question = of_ascii ''s'',
       options = [of_ascii ''x'', of_ascii ''y'', of_ascii ''z''], answer = of_ascii ''AC''\<rparr>,
      \<lparr>type = true_false, question = of_ascii ''r'', options = [], answer = of_ascii ''T''\<rparr>] =
   Inr [header_type, header_question, [65], [66], [67], header_answer] \<and>
   option_positions
     [\<lparr>type = [], question = of_ascii ''v'', options = [of_ascii ''a'', of_ascii ''b'', of_ascii ''c''],
       answer = of_ascii ''B''\<rparr>] = {0, 1, 2} \<and>
   headers_of uncased
     [\<lparr>type = [], question = of_ascii ''v'', options = [of_ascii ''a'', of_ascii ''b'', of_ascii ''c''],
       answer = of_ascii ''B''\<rparr>] =
   Inr [header_type, header_question, [65], [66], [67], header_answer]"
proof -
  let ?q = "\<lparr>type = single_choice, question = of_ascii ''q'', options = [of_ascii ''u''],
       answer = of_ascii ''A''\<rparr>"
  let ?r = "\<lparr>type = true_false, question = of_ascii ''r'', options = [], answer = of_ascii ''T''\<rparr>"
  let ?s = "\<lparr>type = multi_choice, question = of_ascii ''s'',
       options = [of_ascii ''x'', of_ascii ''y'', of_ascii ''z''], answer = of_ascii ''AC''\<rparr>"
  let ?v = "\<lparr>type = [], question = of_ascii ''v'',
       options = [of_ascii ''a'', of_ascii ''b'', of_ascii ''c''], answer = of_ascii ''B''\<rparr>"
  have perm: "mset [?r, ?s] = mset [?s, ?r]"
    by (simp add: add.commute)
  have same: "headers_of uncased [?q, ?r, ?s] = headers_of uncased [?q, ?s, ?r]"
    using schema_determinism [of "[?r, ?s]" "[?s, ?r]" uncased ?q] perm by blast
  have hs: "headers_of uncased [?q, ?s, ?r] =
      Inr [header_type, header_question, [65], [66], [67], header_answer]"
    by (simp add: headers_of_eq longest_options_def letters_upto_def upt_rec get_headers_def
        assign_type_def label_defs)
  have ty: "type (assign_type uncased ?v) = type (assign_type uncased ?q)"
    by (simp add: infer_eval str_eval label_defs)
  have pv: "option_positions [?v] = {0, 1, 2}"
    by (auto simp: option_positions_def)
  have pq: "option_positions [?q, ?s, ?r] = {0, 1, 2}"
    by (auto simp: option_positions_def)
  have "headers_of uncased [?v] = headers_of uncased [?q, ?s, ?r]"
    using schema_determinism [of _ _ uncased ?v ?q "[]" "[?s, ?r]"] ty pv pq by simp
  with perm same hs pv show ?thesis by simp
qed

section \<open>Rows under the schema of the first record\<close>

text \<open>
  Claim C1. A row of a choice type with an option, written under the schema of a batch whose
  first record is true-false, is not adapted to the columns at hand: \<open>headers.index('A')\<close>
  finds no such header and raises \<open>ValueError\<close>. The second equation reaches the same
  failure from a document of three lines whose types are all inferred; \<open>main\<close> shows an
  error and offers no workbook.
\<close>

theorem mixed_types_error:
  "write_to_excel uc
     [\<lparr>type = true_false, question = of_ascii ''q'', options = [], answer = [23545]\<rparr>,
      \<lparr>type = single_choice, question = of_ascii ''r'', options = [of_ascii ''x''],
       answer = of_ascii ''A''\<rparr>] = Inl ValueError \<and>
   main uc (map of_ascii [''1. q{T}'', ''2. r{A}'', ''A. x'']) = [Error_message ValueError]"
proof -
  let ?q = "\<lparr>type = true_false, question = of_ascii ''q'', options = [], answer = [23545]\<rparr>"
  let ?r = "\<lparr>type = single_choice, question = of_ascii ''r'', options = [of_ascii ''x''],
       answer = of_ascii ''A''\<rparr>"
  have hs: "headers_of uc [?q, ?r] =
      Inr [header_type, header_question, word_correct, word_wrong, header_answer]"
    by (simp add: headers_of_eq longest_options_def get_headers_def assign_type_def label_defs)
  have direct: "write_to_excel uc [?q, ?r] = Inl ValueError"
    unfolding write_to_excel_def hs
    by (simp add: write_row_def chr_def assign_type_def label_defs)
  let ?q' = "\<lparr>type = [], question = of_ascii ''q'', options = [], answer = of_ascii ''T''\<rparr>"
  let ?r' = "\<lparr>type = [], question = of_ascii ''r'', options = [of_ascii ''x''],
       answer = of_ascii ''A''\<rparr>"
  have seg: "extract_questions_from_docx (map of_ascii [''1. q{T}'', ''2. r{A}'', ''A. x'']) =
      Inr [?q', ?r']"
    by (simp add: str_eval seg_eval)
  have tq: "assign_type uc ?q' = ?q'\<lparr>type := true_false\<rparr>"
    by (simp add: determine_question_type_def assign_type_def upper_def upper_char_def
        str_eval label_defs)
  have tr: "assign_type uc ?r' = ?r'\<lparr>type := single_choice\<rparr>"
    by (simp add: determine_question_type_def assign_type_def upper_def upper_char_def
        str_eval label_defs)
  have hs': "headers_of uc [?q', ?r'] =
      Inr [header_type, header_question, word_correct, word_wrong, header_answer]"
    unfolding headers_of_eq tq
    by (simp add: longest_options_def get_headers_def label_defs)
  have "write_to_excel uc [?q', ?r'] = Inl ValueError"
    unfolding write_to_excel_def hs' list.map tq tr
    by (simp add: write_row_def chr_def label_defs)
  with seg have "main uc (map of_ascii [''1. q{T}'', ''2. r{A}'', ''A. x'']) =
      [Error_message ValueError]"
    by (simp add: main_def)
  with direct show ?thesis by simp
qed

section \<open>The frame of the type inference\<close>

text \<open>
  Claim C9. The inference step of \<open>write_to_excel\<close> leaves a record with a non-empty type
  as it is, and never changes the stem, the options or the answer of any record; the
  records \<open>write_to_excel\<close> leaves behind are the input records after that step.
\<close>

theorem type_inference_frame:
  "(type q \<noteq> [] \<longrightarrow> assign_type uc q = q) \<and>
   question (assign_type uc q) = question q \<and>
   options (assign_type uc q) = options q \<and>
   answer (assign_type uc q) = answer q \<and>
   (\<forall>ps ws. write_to_excel uc qs = Inr (ps, ws) \<longrightarrow> ps = map (assign_type uc) qs)"
  by (auto simp: assign_type_def write_to_excel_def Let_def split: sum.splits)

text \<open>
  The statement on a record tagged true-false whose answer alone would be read as
  single-choice.
\<close>

theorem type_inference_frame_witness:
  "type \<lparr>type = true_false, question = of_ascii ''q'', options = [], answer = of_ascii ''A''\<rparr> \<noteq> [] \<and>
   assign_type uncased
     \<lparr>type = true_false, question = of_ascii ''q'', options = [], answer = of_ascii ''A''\<rparr> =
   \<lparr>type = true_false, question = of_ascii ''q'', options = [], answer = of_ascii ''A''\<rparr> \<and>
   (\<exists>ws. write_to_excel uncased
      [\<lparr>type = true_false, question = of_ascii ''q'', options = [], answer = of_ascii ''A''\<rparr>] =
     Inr ([\<lparr>type = true_false, question = of_ascii ''q'', options = [],
            answer = of_ascii ''A''\<rparr>], ws))"
proof -
  let ?q = "\<lparr>type = true_false, question = of_ascii ''q'', options = [], answer = of_ascii ''A''\<rparr>"
  have ne: "type ?q \<noteq> []"
    by (simp add: true_false_def)
  with type_inference_frame [of ?q uncased "[?q]"] have same: "assign_type uncased ?q = ?q"
    by blast
  have hs: "headers_of uncased [?q] =
      Inr [header_type, header_question, word_correct, word_wrong, header_answer]"
    unfolding headers_of_eq same
    by (simp add: longest_options_def get_headers_def label_defs)
  have "\<exists>ps ws. write_to_excel uncased [?q] = Inr (ps, ws)"
    unfolding write_to_excel_def hs list.map same
    by (simp add: write_row_def label_defs)
  then obtain ps ws where w: "write_to_excel uncased [?q] = Inr (ps, ws)"
    by blast
  with type_inference_frame [of ?q uncased "[?q]"] have "ps = map (assign_type uncased) [?q]"
    by blast
  with w same ne show ?thesis by auto
qed

end
